theory Spec2Isabelle
  imports Complex_Main "HOL-Library.AList"
begin

section \<open>The keyword extraction and alignment engine of QuestionAir\<close>

text \<open>
  A shallow embedding of \<^verbatim>\<open>QuestionGenerator/keyword_extractor.py\<close> (class
  \<^verbatim>\<open>KeywordExtractor\<close>). The class is glue around four libraries: spaCy (the
  linguistic annotator), scikit-learn (TF-IDF and cosine similarity), ollama (the
  embedding service) and numpy. The libraries are not part of the repository; each one
  enters the model as a field of the record \<open>services\<close>, and every theorem holds for
  all values of these fields unless it says otherwise.
\<close>

subsection \<open>Data\<close>

text \<open>
  A Python \<^verbatim>\<open>str\<close> is a sequence of Unicode code points, and \<^verbatim>\<open>len\<close> counts
  code points; the filter of \<^verbatim>\<open>extract_keywords\<close> names the code points
  \<^verbatim>\<open>U+00C0\<close> to \<^verbatim>\<open>U+00FF\<close>. A string is therefore a list of code points.
\<close>

type_synonym pystr = "nat list"

datatype error =
    EmbeddingServiceError  \<comment> \<open>\<^verbatim>\<open>ollama.embeddings\<close> raised\<close>
  | EmptyVocabulary        \<comment> \<open>\<^verbatim>\<open>TfidfVectorizer.fit_transform\<close> raised\<close>
  | EmptyMax               \<comment> \<open>\<^verbatim>\<open>max()\<close> of an empty iterable\<close>

text \<open>What \<^verbatim>\<open>self.nlp(text)\<close> returns, as far as \<^verbatim>\<open>extract_keywords\<close> reads it:
  the texts of \<^verbatim>\<open>doc.ents\<close>, the texts of \<^verbatim>\<open>doc.noun_chunks\<close>, and for every
  token its text and its \<^verbatim>\<open>pos_\<close> tag.\<close>

record doc =
  ents :: "pystr list"
  noun_chunks :: "pystr list"
  tokens :: "(pystr \<times> string) list"

text \<open>
  The external collaborators. The embedding service is given the prompts it has
  answered so far, so that it may answer the same prompt differently at different times
  and may fail at one time and not at another; \<open>None\<close> is a raised exception.
  \<open>tfidf_features\<close> is \<^verbatim>\<open>fit_transform([text])\<close> followed by
  \<^verbatim>\<open>get_feature_names_out()\<close> on a \<^verbatim>\<open>TfidfVectorizer(max_features = 10)\<close>.
  \<open>isspace\<close> is the class \<^verbatim>\<open>\s\<close> of \<^verbatim>\<open>re\<close>.
\<close>

record 'e services =
  nlp :: "pystr \<Rightarrow> doc"
  str_lower :: "pystr \<Rightarrow> pystr"
  isspace :: "nat \<Rightarrow> bool"
  tfidf_features :: "pystr \<Rightarrow> error + pystr list"
  ollama_embeddings :: "pystr list \<Rightarrow> pystr \<Rightarrow> 'e option"
  cosine_similarity :: "'e \<Rightarrow> 'e \<Rightarrow> real"

text \<open>
  The instance state: the two caches of \<^verbatim>\<open>__init__\<close>, and the list of prompts sent
  to the embedding service so far (the service's side of the conversation, which the
  Python object does not hold but the process has).
\<close>

record 'e extractor =
  embedding_cache :: "pystr \<rightharpoonup> 'e"
  keyword_alignment_cache :: "pystr \<rightharpoonup> pystr"
  requests :: "pystr list"

definition cold :: "'e extractor" where
  "cold = \<lparr>embedding_cache = Map.empty, keyword_alignment_cache = Map.empty, requests = []\<rparr>"

subsection \<open>\<^verbatim>\<open>get_embedding\<close>\<close>

definition get_embedding ::
  "'e services \<Rightarrow> pystr \<Rightarrow> 'e extractor \<Rightarrow> (error + 'e) \<times> 'e extractor" where
  "get_embedding sv text s =
     (case embedding_cache s text of
        Some e \<Rightarrow> (Inr e, s)
      | None \<Rightarrow>
          (case ollama_embeddings sv (requests s) text of
             None \<Rightarrow> (Inl EmbeddingServiceError, s\<lparr>requests := requests s @ [text]\<rparr>)
           | Some e \<Rightarrow>
               (Inr e, s\<lparr>embedding_cache := (embedding_cache s)(text \<mapsto> e),
                         requests := requests s @ [text]\<rparr>)))"

text \<open>
  The dict comprehension \<^verbatim>\<open>{k: self.get_embedding(k) for k in ks}\<close>. A Python dict
  keeps insertion order and an assignment to a present key keeps the key's place, which
  is \<open>AList.update\<close>. The first exception ends the comprehension; the cache entries
  written before it stay.
\<close>

fun embed_all ::
  "'e services \<Rightarrow> pystr list \<Rightarrow> (pystr \<times> 'e) list \<Rightarrow> 'e extractor
     \<Rightarrow> (error + (pystr \<times> 'e) list) \<times> 'e extractor" where
  "embed_all sv [] acc s = (Inr acc, s)"
| "embed_all sv (k # ks) acc s =
     (case get_embedding sv k s of
        (Inl err, s') \<Rightarrow> (Inl err, s')
      | (Inr e, s') \<Rightarrow> embed_all sv ks (AList.update k e acc) s')"

subsection \<open>\<^verbatim>\<open>align_keywords\<close>\<close>

text \<open>
  \<^verbatim>\<open>similarity_matrix\<close>: zero on the diagonal; the entry for \<open>i < j\<close> is computed
  once, from the embeddings of \<open>keywords[i]\<close> and \<open>keywords[j]\<close> in this order, and
  stored at \<open>[i][j]\<close> and \<open>[j][i]\<close>. \<open>embeddings[k]\<close> raises \<^verbatim>\<open>KeyError\<close> on an
  absent key; the dict holds every keyword (lemma \<open>embed_all_keys\<close>), so the lookup
  is written with \<open>the\<close>.
\<close>

definition similarity_matrix ::
  "'e services \<Rightarrow> (pystr \<times> 'e) list \<Rightarrow> pystr list \<Rightarrow> nat \<Rightarrow> nat \<Rightarrow> real" where
  "similarity_matrix sv embeddings keywords i j =
     (if i < j then
        cosine_similarity sv (the (map_of embeddings (keywords ! i)))
                             (the (map_of embeddings (keywords ! j)))
      else if j < i then
        cosine_similarity sv (the (map_of embeddings (keywords ! j)))
                             (the (map_of embeddings (keywords ! i)))
      else 0)"

text \<open>One step of the inner loop \<^verbatim>\<open>for j in range(n)\<close> on the pair
  \<open>(cluster, used)\<close>.\<close>

definition add_similar ::
  "(nat \<Rightarrow> nat \<Rightarrow> real) \<Rightarrow> real \<Rightarrow> pystr list \<Rightarrow> nat \<Rightarrow> nat
     \<Rightarrow> pystr set \<times> pystr set \<Rightarrow> pystr set \<times> pystr set" where
  "add_similar M threshold keywords i j cu =
     (if i \<noteq> j \<and> threshold \<le> M i j
      then (insert (keywords ! j) (fst cu), insert (keywords ! j) (snd cu))
      else cu)"

text \<open>The body of the outer loop for a seed \<open>i\<close>: the new cluster and the new
  \<open>used\<close>.\<close>

definition grow_cluster ::
  "(nat \<Rightarrow> nat \<Rightarrow> real) \<Rightarrow> real \<Rightarrow> pystr list \<Rightarrow> nat \<Rightarrow> pystr set
     \<Rightarrow> pystr set \<times> pystr set" where
  "grow_cluster M threshold keywords i used =
     fold (add_similar M threshold keywords i) [0..<length keywords]
          ({keywords ! i}, insert (keywords ! i) used)"

text \<open>The outer loop \<^verbatim>\<open>for i in range(n)\<close>, over the indices still to visit.\<close>

fun cluster_loop ::
  "(nat \<Rightarrow> nat \<Rightarrow> real) \<Rightarrow> real \<Rightarrow> pystr list \<Rightarrow> nat list
     \<Rightarrow> pystr set list \<Rightarrow> pystr set \<Rightarrow> pystr set list" where
  "cluster_loop M threshold keywords [] clusters used = clusters"
| "cluster_loop M threshold keywords (i # is) clusters used =
     (if keywords ! i \<in> used then cluster_loop M threshold keywords is clusters used
      else case grow_cluster M threshold keywords i used of
             (cluster, used') \<Rightarrow>
               cluster_loop M threshold keywords is (clusters @ [cluster]) used')"

text \<open>\<^verbatim>\<open>Counter(...)\<close>: a dict from element to count, in order of first
  appearance.\<close>

definition counter_add :: "'a \<Rightarrow> ('a \<times> nat) list \<Rightarrow> ('a \<times> nat) list" where
  "counter_add k d =
     AList.update k (case map_of d k of None \<Rightarrow> 1 | Some c \<Rightarrow> c + 1) d"

definition Counter :: "'a list \<Rightarrow> ('a \<times> nat) list" where
  "Counter xs = fold counter_add xs []"

text \<open>\<^verbatim>\<open>max(items, key = f)\<close>: the first item whose key is maximal;
  \<^verbatim>\<open>ValueError\<close> on no item.\<close>

fun py_max :: "('a \<Rightarrow> nat) \<Rightarrow> 'a list \<Rightarrow> error + 'a" where
  "py_max f [] = Inl EmptyMax"
| "py_max f (x # xs) = Inr (fold (\<lambda>y best. if f best < f y then y else best) xs x)"

definition representative :: "pystr list \<Rightarrow> pystr set \<Rightarrow> error + pystr" where
  "representative keywords cluster =
     (case py_max snd (Counter (filter (\<lambda>k. k \<in> cluster) keywords)) of
        Inl err \<Rightarrow> Inl err
      | Inr item \<Rightarrow> Inr (fst item))"

text \<open>\<^verbatim>\<open>for k in cluster: self.keyword_alignment_cache[k] = representative\<close>. Every
  member gets the same value, so the order in which the set is walked does not show.\<close>

definition cache_cluster :: "pystr set \<Rightarrow> pystr \<Rightarrow> (pystr \<rightharpoonup> pystr) \<Rightarrow> (pystr \<rightharpoonup> pystr)" where
  "cache_cluster cluster r cache = (\<lambda>k. if k \<in> cluster then Some r else cache k)"

text \<open>The loop \<^verbatim>\<open>for cluster in clusters\<close>.\<close>

fun assign_loop ::
  "pystr list \<Rightarrow> pystr set list \<Rightarrow> pystr list \<Rightarrow> (pystr \<rightharpoonup> pystr)
     \<Rightarrow> (error + pystr list) \<times> (pystr \<rightharpoonup> pystr)" where
  "assign_loop keywords [] aligned cache = (Inr aligned, cache)"
| "assign_loop keywords (cluster # rest) aligned cache =
     (case representative keywords cluster of
        Inl err \<Rightarrow> (Inl err, cache)
      | Inr r \<Rightarrow> assign_loop keywords rest (aligned @ [r]) (cache_cluster cluster r cache))"

text \<open>The clusters of one call, from the embeddings dict (lines 103 to 132).\<close>

definition form_clusters ::
  "'e services \<Rightarrow> (pystr \<times> 'e) list \<Rightarrow> pystr list \<Rightarrow> real \<Rightarrow> pystr set list" where
  "form_clusters sv embeddings keywords threshold =
     cluster_loop (similarity_matrix sv embeddings keywords) threshold keywords
       [0..<length keywords] [] {}"

definition align_keywords ::
  "'e services \<Rightarrow> pystr list \<Rightarrow> real \<Rightarrow> 'e extractor
     \<Rightarrow> (error + pystr list) \<times> 'e extractor" where
  "align_keywords sv keywords threshold s =
     (if keywords = [] then (Inr [], s)
      else if list_all (\<lambda>k. keyword_alignment_cache s k \<noteq> None) keywords
      then (Inr (map (\<lambda>k. the (keyword_alignment_cache s k)) keywords), s)
      else case embed_all sv keywords [] s of
             (Inl err, s') \<Rightarrow> (Inl err, s')
           | (Inr embeddings, s') \<Rightarrow>
               (case assign_loop keywords (form_clusters sv embeddings keywords threshold) []
                       (keyword_alignment_cache s') of
                  (res, cache') \<Rightarrow> (res, s'\<lparr>keyword_alignment_cache := cache'\<rparr>)))"


subsection \<open>\<^verbatim>\<open>extract_keywords\<close>\<close>

definition important_pos :: "string set" where
  "important_pos = {''NOUN'', ''PROPN'', ''ADJ''}"

text \<open>The candidates of the first three methods: entity texts, noun chunk texts and
  the texts of tokens with an important tag, all lower-cased.\<close>

definition annotator_candidates :: "'e services \<Rightarrow> pystr \<Rightarrow> pystr set" where
  "annotator_candidates sv text =
     set (map (str_lower sv) (ents (nlp sv text)))
     \<union> set (map (str_lower sv) (noun_chunks (nlp sv text)))
     \<union> set (map (\<lambda>t. str_lower sv (fst t))
              (filter (\<lambda>t. snd t \<in> important_pos) (tokens (nlp sv text))))"

text \<open>Method 4, inside \<^verbatim>\<open>try: ... except: pass\<close>: the feature names are added
  as they are; when the vectorizer raises, nothing is added.\<close>

definition all_candidates :: "'e services \<Rightarrow> pystr \<Rightarrow> pystr set" where
  "all_candidates sv text =
     (case tfidf_features sv text of
        Inl err \<Rightarrow> annotator_candidates sv text
      | Inr names \<Rightarrow> annotator_candidates sv text \<union> set names)"

text \<open>The character class \<^verbatim>\<open>[a-zA-Z\<close>\<open>\<dots>\<close>\<^verbatim>\<open>\s-]\<close> whose third range runs from
  \<^verbatim>\<open>U+00C0\<close> to \<^verbatim>\<open>U+00FF\<close>, and \<^verbatim>\<open>re.match\<close> of the pattern
  \<^verbatim>\<open>^[...]+$\<close>: one or more characters of the class up to the end of the string
  (a final newline, which \<^verbatim>\<open>$\<close> would allow after the match, is in the class).\<close>

definition in_class :: "'e services \<Rightarrow> nat \<Rightarrow> bool" where
  "in_class sv c =
     ((97 \<le> c \<and> c \<le> 122) \<or> (65 \<le> c \<and> c \<le> 90) \<or> (192 \<le> c \<and> c \<le> 255)
      \<or> isspace sv c \<or> c = 45)"

definition re_match :: "'e services \<Rightarrow> pystr \<Rightarrow> bool" where
  "re_match sv k = (k \<noteq> [] \<and> list_all (in_class sv) k)"

definition keep_candidate :: "'e services \<Rightarrow> pystr \<Rightarrow> bool" where
  "keep_candidate sv k = (2 < length k \<and> re_match sv k)"

definition candidates :: "'e services \<Rightarrow> pystr \<Rightarrow> pystr set" where
  "candidates sv text = Set.filter (keep_candidate sv) (all_candidates sv text)"

text \<open>
  The order in which Python walks a set is not the order of insertion and is not fixed
  by the language. \<^verbatim>\<open>extract_keywords\<close> walks the set of candidates once; the order
  of that walk is a parameter \<open>order\<close>, of which \<open>iteration_order\<close> says that it lists
  the set without repetition.
\<close>

definition iteration_order :: "('a set \<Rightarrow> 'a list) \<Rightarrow> 'a set \<Rightarrow> bool" where
  "iteration_order order A = (set (order A) = A \<and> distinct (order A))"

text \<open>\<^verbatim>\<open>sorted(items, key = lambda x: x[1], reverse = True)\<close>: by descending score,
  items of equal score in their original order.\<close>

definition sorted_desc :: "('a \<times> real) list \<Rightarrow> ('a \<times> real) list" where
  "sorted_desc items = sort_key (\<lambda>x. - snd x) items"

text \<open>\<^verbatim>\<open>xs[:n]\<close>: a negative \<open>n\<close> counts from the end.\<close>

definition py_slice_to :: "int \<Rightarrow> 'a list \<Rightarrow> 'a list" where
  "py_slice_to n xs =
     (if 0 \<le> n then take (nat n) xs else take (nat (int (length xs) + n)) xs)"

definition extract_keywords ::
  "'e services \<Rightarrow> (pystr set \<Rightarrow> pystr list) \<Rightarrow> pystr \<Rightarrow> int \<Rightarrow> 'e extractor
     \<Rightarrow> (error + pystr list) \<times> 'e extractor" where
  "extract_keywords sv order text num_keywords s =
     (case embed_all sv (order (candidates sv text)) [] s of
        (Inl err, s1) \<Rightarrow> (Inl err, s1)
      | (Inr candidate_embeddings, s1) \<Rightarrow>
          (case get_embedding sv text s1 of
             (Inl err, s2) \<Rightarrow> (Inl err, s2)
           | (Inr text_embedding, s2) \<Rightarrow>
               (Inr (map fst (py_slice_to num_keywords (sorted_desc
                       (map (\<lambda>kv. (fst kv, cosine_similarity sv (snd kv) text_embedding))
                            candidate_embeddings)))),
                s2)))"

subsection \<open>Notions used by the properties\<close>

text \<open>The similarity of two strings whose embeddings are cached.\<close>

definition cached_similarity :: "'e services \<Rightarrow> 'e extractor \<Rightarrow> pystr \<Rightarrow> pystr \<Rightarrow> real" where
  "cached_similarity sv s k k' =
     cosine_similarity sv (the (embedding_cache s k)) (the (embedding_cache s k'))"

text \<open>The cluster that the outer loop builds when index \<open>i\<close> is a seed.\<close>

definition cluster_of :: "(nat \<Rightarrow> nat \<Rightarrow> real) \<Rightarrow> real \<Rightarrow> pystr list \<Rightarrow> nat \<Rightarrow> pystr set" where
  "cluster_of M threshold keywords i = fst (grow_cluster M threshold keywords i {})"

text \<open>The indices at which the outer loop starts a cluster: the same recursion as
  \<open>cluster_loop\<close>, keeping the seed index in place of the cluster.\<close>

fun seed_indices ::
  "(nat \<Rightarrow> nat \<Rightarrow> real) \<Rightarrow> real \<Rightarrow> pystr list \<Rightarrow> nat list \<Rightarrow> pystr set \<Rightarrow> nat list" where
  "seed_indices M threshold keywords [] used = []"
| "seed_indices M threshold keywords (i # is) used =
     (if keywords ! i \<in> used then seed_indices M threshold keywords is used
      else i # seed_indices M threshold keywords is
                 (snd (grow_cluster M threshold keywords i used)))"

text \<open>The alignment cache after each turn of the loop \<^verbatim>\<open>for cluster in clusters\<close>.\<close>

fun cache_trace ::
  "pystr list \<Rightarrow> pystr set list \<Rightarrow> (pystr \<rightharpoonup> pystr) \<Rightarrow> (pystr \<rightharpoonup> pystr) list" where
  "cache_trace keywords [] cache = []"
| "cache_trace keywords (cluster # rest) cache =
     (case representative keywords cluster of
        Inl err \<Rightarrow> []
      | Inr r \<Rightarrow> cache_cluster cluster r cache
                 # cache_trace keywords rest (cache_cluster cluster r cache))"

subsection \<open>A concrete instance\<close>

text \<open>Strings: \<^verbatim>\<open>le\<close>, \<^verbatim>\<open>chat\<close>, \<^verbatim>\<open>chats\<close>, \<^verbatim>\<open>chatte\<close>, \<^verbatim>\<open>le chat\<close>, and
  \<^verbatim>\<open>a\<close>, \<^verbatim>\<open>U+00D7\<close> (the multiplication sign), \<^verbatim>\<open>b\<close>.\<close>

definition le :: pystr where "le = [108, 101]"
definition chat :: pystr where "chat = [99, 104, 97, 116]"
definition chats :: pystr where "chats = [99, 104, 97, 116, 115]"
definition chatte :: pystr where "chatte = [99, 104, 97, 116, 116, 101]"
definition le_chat :: pystr where "le_chat = [108, 101, 32, 99, 104, 97, 116]"
definition a_times_b :: pystr where "a_times_b = [97, 215, 98]"

text \<open>An annotator that knows two documents, \<^verbatim>\<open>le chat\<close> and \<^verbatim>\<open>a\<close>\<open>\<times>\<close>\<^verbatim>\<open>b\<close>.\<close>

definition demo_nlp :: "pystr \<Rightarrow> doc" where
  "demo_nlp text =
     (if text = le_chat then
        \<lparr>ents = [], noun_chunks = [le_chat], tokens = [(le, ''DET''), (chat, ''NOUN'')]\<rparr>
      else if text = a_times_b then
        \<lparr>ents = [], noun_chunks = [], tokens = [(a_times_b, ''NOUN'')]\<rparr>
      else \<lparr>ents = [], noun_chunks = [], tokens = []\<rparr>)"

text \<open>An embedding service that answers every prompt with its length, and a similarity
  of \<open>1\<close> for equal lengths, \<open>0.95\<close> for lengths one apart and \<open>0.4\<close> otherwise.\<close>

definition demo_cos :: "nat \<Rightarrow> nat \<Rightarrow> real" where
  "demo_cos x y = (if x = y then 1 else if x = Suc y \<or> y = Suc x then 0.95 else 0.4)"

definition demo :: "nat services" where
  "demo = \<lparr>nlp = demo_nlp, str_lower = (\<lambda>k. k), isspace = (\<lambda>c. c = 32),
            tfidf_features = (\<lambda>text. Inl EmptyVocabulary),
            ollama_embeddings = (\<lambda>history text. Some (length text)),
            cosine_similarity = demo_cos\<rparr>"

text \<open>Keyword lists and states of the instance: a state that holds an embedding of
  \<^verbatim>\<open>chat\<close> which the service would not give, and a state whose alignment cache knows
  \<^verbatim>\<open>chat\<close> and \<^verbatim>\<open>chats\<close>.\<close>

definition overlapping :: "pystr list" where
  "overlapping = [chat, chats, chatte]"

definition separate :: "pystr list" where
  "separate = [chat, le_chat]"

definition spec_example :: "pystr list" where
  "spec_example = [chat, chats, le_chat]"

text \<open>The embeddings dicts that \<^verbatim>\<open>align_keywords\<close> builds for these lists.\<close>

definition overlapping_embeddings :: "(pystr \<times> nat) list" where
  "overlapping_embeddings = [(chat, 4), (chats, 5), (chatte, 6)]"

definition spec_example_embeddings :: "(pystr \<times> nat) list" where
  "spec_example_embeddings = [(chat, 4), (chats, 5), (le_chat, 7)]"

definition warm :: "nat extractor" where
  "warm = \<lparr>embedding_cache = [chat \<mapsto> 7], keyword_alignment_cache = Map.empty,
            requests = [chat]\<rparr>"

definition aligned :: "nat extractor" where
  "aligned = \<lparr>embedding_cache = [chat \<mapsto> 4, chats \<mapsto> 5],
               keyword_alignment_cache = [chat \<mapsto> chat, chats \<mapsto> chat],
               requests = [chat, chats]\<rparr>"

text \<open>The same with the embedding service down.\<close>

definition demo_offline :: "nat services" where
  "demo_offline = demo\<lparr>ollama_embeddings := (\<lambda>history text. None)\<rparr>"

text \<open>A walk through a set of strings in lexicographic order of code points
  would do; for the instance it is enough to list the candidates of \<^verbatim>\<open>le chat\<close>.\<close>

definition demo_order :: "pystr set \<Rightarrow> pystr list" where
  "demo_order A = (if A = {} then [] else [chat, le_chat])"

section \<open>Properties\<close>

subsection \<open>The embedding cache\<close>

lemma get_embedding_cached:
  "embedding_cache s t = Some e \<Longrightarrow> get_embedding sv t s = (Inr e, s)"
  by (simp add: get_embedding_def)

lemma get_embedding_mono:
  "embedding_cache s k = Some v \<Longrightarrow> embedding_cache (snd (get_embedding sv t s)) k = Some v"
  by (auto simp: get_embedding_def split: option.splits)

lemma get_embedding_kac:
  "keyword_alignment_cache (snd (get_embedding sv t s)) = keyword_alignment_cache s"
  by (simp add: get_embedding_def split: option.splits)


lemma get_embedding_dom:
  "dom (embedding_cache (snd (get_embedding sv t s))) \<subseteq> insert t (dom (embedding_cache s))"
  by (auto simp: get_embedding_def split: option.splits if_splits)

lemma embed_all_mono:
  "embedding_cache s k = Some v \<Longrightarrow> embedding_cache (snd (embed_all sv ks acc s)) k = Some v"
proof (induction ks arbitrary: acc s)
  case Nil
  then show ?case by simp
next
  case (Cons a ks)
  obtain r s1 where g: "get_embedding sv a s = (r, s1)"
    by (cases "get_embedding sv a s")
  have c1: "embedding_cache s1 k = Some v"
    using get_embedding_mono [OF Cons.prems, of sv a] g by simp
  show ?case
    by (cases r) (simp_all add: g c1 Cons.IH)
qed

lemma embed_all_kac:
  "keyword_alignment_cache (snd (embed_all sv ks acc s)) = keyword_alignment_cache s"
proof (induction ks arbitrary: acc s)
  case Nil
  then show ?case by simp
next
  case (Cons a ks)
  obtain r s1 where g: "get_embedding sv a s = (r, s1)"
    by (cases "get_embedding sv a s")
  have c1: "keyword_alignment_cache s1 = keyword_alignment_cache s"
    using get_embedding_kac [of sv a s] g by simp
  show ?case
    by (cases r) (simp_all add: g c1 Cons.IH)
qed

lemma extract_keywords_mono:
  assumes "embedding_cache s k = Some v"
  shows "embedding_cache (snd (extract_keywords sv order text n s)) k = Some v"
proof -
  obtain r1 s1 where e: "embed_all sv (order (candidates sv text)) [] s = (r1, s1)"
    by (cases "embed_all sv (order (candidates sv text)) [] s")
  obtain r2 s2 where g: "get_embedding sv text s1 = (r2, s2)"
    by (cases "get_embedding sv text s1")
  have c1: "embedding_cache s1 k = Some v"
    using embed_all_mono [OF assms, of sv "order (candidates sv text)" "[]"] e by simp
  have c2: "embedding_cache s2 k = Some v"
    using get_embedding_mono [OF c1, of sv "text"] g by simp
  show ?thesis
    by (cases r1; cases r2) (simp_all add: extract_keywords_def e g c1 c2)
qed

lemma extract_keywords_kac:
  "keyword_alignment_cache (snd (extract_keywords sv order text n s)) = keyword_alignment_cache s"
proof -
  obtain r1 s1 where e: "embed_all sv (order (candidates sv text)) [] s = (r1, s1)"
    by (cases "embed_all sv (order (candidates sv text)) [] s")
  obtain r2 s2 where g: "get_embedding sv text s1 = (r2, s2)"
    by (cases "get_embedding sv text s1")
  have c1: "keyword_alignment_cache s1 = keyword_alignment_cache s"
    using embed_all_kac [of sv "order (candidates sv text)" "[]" s] e by simp
  have c2: "keyword_alignment_cache s2 = keyword_alignment_cache s1"
    using get_embedding_kac [of sv "text" s1] g by simp
  show ?thesis
    by (cases r1; cases r2) (simp_all add: extract_keywords_def e g c1 c2)
qed

lemma align_keywords_mono:
  assumes "embedding_cache s k = Some v"
  shows "embedding_cache (snd (align_keywords sv keywords threshold s)) k = Some v"
proof -
  obtain r1 s1 where e: "embed_all sv keywords [] s = (r1, s1)"
    by (cases "embed_all sv keywords [] s")
  have c1: "embedding_cache s1 k = Some v"
    using embed_all_mono [OF assms, of sv "keywords" "[]"] e by simp
  show ?thesis
    by (cases r1) (simp_all add: align_keywords_def e c1 assms split: prod.splits)
qed

text \<open>
  Claim C10. \<^verbatim>\<open>extract_keywords\<close> leaves the keyword alignment cache as it was, on
  success and on failure. An entry of the embedding cache is never overwritten: a key
  that maps to \<open>v\<close> before \<^verbatim>\<open>get_embedding\<close>, \<^verbatim>\<open>extract_keywords\<close> or
  \<^verbatim>\<open>align_keywords\<close> maps to \<open>v\<close> after it, whatever the embedding service answers.
  \<^verbatim>\<open>get_embedding\<close> adds no key but its argument, and on a cached argument it
  changes nothing and returns the cached vector.
\<close>

theorem embedding_cache_stable:
  "keyword_alignment_cache (snd (extract_keywords sv order text n s)) = keyword_alignment_cache s
   \<and> (embedding_cache s k = Some v \<longrightarrow>
        embedding_cache (snd (get_embedding sv t s)) k = Some v
      \<and> embedding_cache (snd (extract_keywords sv order text n s)) k = Some v
      \<and> embedding_cache (snd (align_keywords sv keywords threshold s)) k = Some v
      \<and> get_embedding sv k s = (Inr v, s))
   \<and> dom (embedding_cache (snd (get_embedding sv t s))) \<subseteq> insert t (dom (embedding_cache s))"
  by (simp add: extract_keywords_kac get_embedding_mono extract_keywords_mono
        align_keywords_mono get_embedding_cached get_embedding_dom)

theorem embedding_cache_stable_witness:
  "embedding_cache warm chat = Some 7
   \<and> embedding_cache (snd (get_embedding demo le_chat warm)) chat = Some 7
   \<and> embedding_cache (snd (extract_keywords demo demo_order le_chat 1 warm)) chat = Some 7
   \<and> embedding_cache (snd (align_keywords demo overlapping 0.85 warm)) chat = Some 7
   \<and> get_embedding demo chat warm = (Inr 7, warm)"
proof -
  have h: "embedding_cache warm chat = Some 7"
    by (simp add: warm_def)
  show ?thesis
    using embedding_cache_stable
      [of demo demo_order le_chat 1 warm chat 7 le_chat overlapping "0.85"] h
    by simp
qed

text \<open>
  Claim C6. \<^verbatim>\<open>align_keywords\<close> on the empty list returns the empty list. It sends
  nothing to the embedding service and writes neither cache: the state after the call is
  the state before it. It reads neither cache: the result is the same in every state.
\<close>

theorem align_keywords_empty:
  "align_keywords sv [] threshold s = (Inr [], s)"
  by (simp add: align_keywords_def)

subsection \<open>Candidates\<close>

lemma in_class_tfidf [simp]: "in_class (sv\<lparr>tfidf_features := f\<rparr>) = in_class sv"
  by (rule ext) (simp add: in_class_def)

lemma keep_candidate_tfidf [simp]:
  "keep_candidate (sv\<lparr>tfidf_features := f\<rparr>) = keep_candidate sv"
  by (rule ext) (simp add: keep_candidate_def re_match_def)

lemma annotator_candidates_tfidf [simp]:
  "annotator_candidates (sv\<lparr>tfidf_features := f\<rparr>) = annotator_candidates sv"
  by (rule ext) (simp add: annotator_candidates_def)

lemma get_embedding_tfidf [simp]:
  "get_embedding (sv\<lparr>tfidf_features := f\<rparr>) = get_embedding sv"
  by (intro ext) (simp add: get_embedding_def split: option.splits)

lemma embed_all_tfidf [simp]:
  "embed_all (sv\<lparr>tfidf_features := f\<rparr>) ks acc s = embed_all sv ks acc s"
  by (induction ks arbitrary: acc s) (simp_all split: prod.splits sum.splits)

lemma get_embedding_error:
  "get_embedding sv t s = (Inl err, s') \<Longrightarrow> err = EmbeddingServiceError"
  by (auto simp: get_embedding_def split: option.splits)

lemma embed_all_error:
  "embed_all sv ks acc s = (Inl err, s') \<Longrightarrow> err = EmbeddingServiceError"
proof (induction ks arbitrary: acc s)
  case Nil
  then show ?case by simp
next
  case (Cons a ks)
  obtain r s1 where g: "get_embedding sv a s = (r, s1)"
    by (cases "get_embedding sv a s")
  show ?case
  proof (cases r)
    case (Inl e)
    with Cons.prems g get_embedding_error [of sv a s e s1] show ?thesis by simp
  next
    case (Inr e)
    with Cons.prems g Cons.IH show ?thesis by simp
  qed
qed

lemma extract_keywords_error:
  assumes "extract_keywords sv order text n s = (Inl err, s')"
  shows "err = EmbeddingServiceError"
proof -
  obtain r1 s1 where e: "embed_all sv (order (candidates sv text)) [] s = (r1, s1)"
    by (cases "embed_all sv (order (candidates sv text)) [] s")
  obtain r2 s2 where g: "get_embedding sv text s1 = (r2, s2)"
    by (cases "get_embedding sv text s1")
  show ?thesis
  proof (cases r1)
    case (Inl e1)
    with assms e embed_all_error [of sv _ "[]" s e1 s1] show ?thesis
      by (simp add: extract_keywords_def)
  next
    case r1: (Inr ce)
    show ?thesis
    proof (cases r2)
      case (Inl e2)
      with assms e g r1 get_embedding_error [of sv "text" s1 e2 s2] show ?thesis
        by (simp add: extract_keywords_def)
    next
      case (Inr te)
      with assms e g r1 show ?thesis
        by (simp add: extract_keywords_def)
    qed
  qed
qed

lemma candidates_filtered:
  "k \<in> candidates sv text \<Longrightarrow> 2 < length k \<and> (\<forall>c \<in> set k. in_class sv c)"
  by (simp add: candidates_def keep_candidate_def re_match_def list_all_iff)

lemma digit_discarded:
  assumes "c \<in> set k" and "48 \<le> c" and "c \<le> 57" and "\<not> isspace sv c"
  shows "k \<notin> candidates sv text"
proof
  assume "k \<in> candidates sv text"
  then have "in_class sv c"
    using candidates_filtered assms(1) by blast
  with assms show False
    by (simp add: in_class_def)
qed

text \<open>
  Claim C7. When the TF-IDF step raises, \<^verbatim>\<open>extract_keywords\<close> behaves as if the step
  had found no term: the candidates are those of the three other methods, filtered, and
  result and final state are those of a run whose vectorizer returns no feature name.
  The exception does not reach the caller: the only error that \<^verbatim>\<open>extract_keywords\<close>
  returns is that of the embedding service.
\<close>

theorem tfidf_failure_swallowed:
  assumes "tfidf_features sv text = Inl err"
  shows "candidates sv text = Set.filter (keep_candidate sv) (annotator_candidates sv text)
     \<and> extract_keywords sv order text n s
         = extract_keywords (sv\<lparr>tfidf_features := (\<lambda>t. Inr [])\<rparr>) order text n s
     \<and> fst (extract_keywords sv order text n s) \<noteq> Inl EmptyVocabulary"
proof (intro conjI)
  show "candidates sv text = Set.filter (keep_candidate sv) (annotator_candidates sv text)"
    by (simp add: candidates_def all_candidates_def assms)
  have same: "candidates (sv\<lparr>tfidf_features := (\<lambda>t. Inr [])\<rparr>) text = candidates sv text"
    by (simp add: candidates_def all_candidates_def assms)
  show "extract_keywords sv order text n s
         = extract_keywords (sv\<lparr>tfidf_features := (\<lambda>t. Inr [])\<rparr>) order text n s"
    by (simp add: extract_keywords_def same split: prod.splits sum.splits)
  show "fst (extract_keywords sv order text n s) \<noteq> Inl EmptyVocabulary"
    using extract_keywords_error [of sv order "text" n s EmptyVocabulary]
    by (cases "extract_keywords sv order text n s") auto
qed

theorem tfidf_failure_swallowed_witness:
  "candidates demo le_chat
     = Set.filter (keep_candidate demo) (annotator_candidates demo le_chat)
   \<and> extract_keywords demo demo_order le_chat 1 cold
       = extract_keywords (demo\<lparr>tfidf_features := (\<lambda>t. Inr [])\<rparr>) demo_order le_chat 1 cold
   \<and> fst (extract_keywords demo demo_order le_chat 1 cold) \<noteq> Inl EmptyVocabulary"
proof -
  have "tfidf_features demo le_chat = Inl EmptyVocabulary"
    by (simp add: demo_def)
  then show ?thesis
    by (rule tfidf_failure_swallowed)
qed

subsection \<open>The concrete instance, evaluated\<close>


lemma demo_candidates_le: "candidates demo le = {}"
  by (auto simp: candidates_def all_candidates_def annotator_candidates_def demo_def demo_nlp_def
      keep_candidate_def re_match_def in_class_def important_pos_def
      le_def chat_def le_chat_def a_times_b_def)

lemma demo_candidates_a_times_b: "candidates demo a_times_b = {a_times_b}"
  by (auto simp: candidates_def all_candidates_def annotator_candidates_def demo_def demo_nlp_def
      keep_candidate_def re_match_def in_class_def important_pos_def
      le_def chat_def le_chat_def a_times_b_def)



lemma in_class_ollama [simp]: "in_class (sv\<lparr>ollama_embeddings := f\<rparr>) = in_class sv"
  by (rule ext) (simp add: in_class_def)

lemma candidates_ollama [simp]:
  "candidates (sv\<lparr>ollama_embeddings := f\<rparr>) = candidates sv"
  by (rule ext)
     (simp add: candidates_def all_candidates_def annotator_candidates_def
        keep_candidate_def [abs_def] re_match_def split: sum.splits)

lemma demo_offline_candidates: "candidates demo_offline = candidates demo"
  by (simp add: demo_offline_def)

lemma demo_extract_offline:
  "fst (extract_keywords demo_offline demo_order le 3 cold) = Inl EmbeddingServiceError"
  unfolding extract_keywords_def demo_offline_candidates demo_candidates_le
  by (simp add: demo_order_def get_embedding_def cold_def demo_offline_def demo_def)

lemma demo_extract_online:
  "fst (extract_keywords demo demo_order le 3 cold) = Inr []"
  unfolding extract_keywords_def demo_candidates_le
  by (simp add: demo_order_def get_embedding_def cold_def demo_def sorted_desc_def
      py_slice_to_def)

lemmas demo_defs = demo_def demo_cos_def le_def chat_def chats_def chatte_def le_chat_def
  overlapping_def separate_def spec_example_def overlapping_embeddings_def
  spec_example_embeddings_def cold_def warm_def aligned_def

lemmas align_defs = align_keywords_def get_embedding_def form_clusters_def grow_cluster_def
  add_similar_def similarity_matrix_def representative_def Counter_def counter_add_def
  cache_cluster_def













lemma demo_align_separate_similarity:
  "cached_similarity demo (snd (align_keywords demo separate 0.85 cold)) chat le_chat < 0.85"
  by (simp add: cached_similarity_def demo_defs align_defs)

text \<open>
  Claim C3, at a candidate that the filter should discard. The string \<^verbatim>\<open>a\<close>\<open>\<times>\<close>\<^verbatim>\<open>b\<close>
  has three characters; its second character is \<^verbatim>\<open>U+00D7\<close>, the multiplication sign,
  which is no letter, no whitespace and no hyphen. The range of the character class that
  is meant for the accented letters contains it (and \<^verbatim>\<open>U+00F7\<close>, the division
  sign), so the filter keeps the string, whatever \<^verbatim>\<open>\s\<close> matches, and a document
  whose annotation has it as a noun has it among its candidates.
\<close>

theorem multiplication_sign_kept:
  "keep_candidate sv [97, 215, 98] \<and> keep_candidate sv [97, 247, 98]
   \<and> a_times_b \<in> candidates demo a_times_b"
  by (simp add: demo_candidates_a_times_b keep_candidate_def re_match_def in_class_def)

subsection \<open>Relevance scoring\<close>







text \<open>An embedding service that answers every request makes \<^verbatim>\<open>get_embedding\<close> and
  \<^verbatim>\<open>extract_keywords\<close> return.\<close>

lemma get_embedding_returns:
  assumes "\<forall>history t. ollama_embeddings sv history t \<noteq> None"
  shows "\<exists>e s'. get_embedding sv t s = (Inr e, s')"
proof (cases "embedding_cache s t")
  case None
  moreover from assms obtain e where "ollama_embeddings sv (requests s) t = Some e"
    by auto
  ultimately show ?thesis
    by (simp add: get_embedding_def)
next
  case (Some e)
  then show ?thesis
    by (simp add: get_embedding_def)
qed

lemma embed_all_returns:
  assumes "\<forall>history t. ollama_embeddings sv history t \<noteq> None"
  shows "\<exists>E s'. embed_all sv ks acc s = (Inr E, s')"
proof (induction ks arbitrary: acc s)
  case Nil
  then show ?case by simp
next
  case (Cons k ks)
  from get_embedding_returns [OF assms, of k s]
  obtain e s1 where "get_embedding sv k s = (Inr e, s1)"
    by blast
  with Cons [of "AList.update k e acc" s1] show ?case
    by simp
qed

lemma extract_keywords_returns:
  assumes "\<forall>history t. ollama_embeddings sv history t \<noteq> None"
  shows "\<exists>ks s'. extract_keywords sv order text n s = (Inr ks, s')"
proof -
  from embed_all_returns [OF assms, of "order (candidates sv text)" "[]" s]
  obtain E s1 where 1: "embed_all sv (order (candidates sv text)) [] s = (Inr E, s1)"
    by blast
  from get_embedding_returns [OF assms, of "text" s1]
  obtain e s2 where 2: "get_embedding sv text s1 = (Inr e, s2)"
    by blast
  from 1 2 show ?thesis
    by (simp add: extract_keywords_def)
qed




text \<open>
  Claim C8, when the embedding of the document is to be had. If no candidate survives
  the filter, \<^verbatim>\<open>extract_keywords\<close> returns the empty list provided the document's
  embedding is cached or the embedding service answers the request for it. (The only
  request of such a call is the one for the document.)
\<close>

theorem no_candidates_empty_result:
  assumes "candidates sv text = {}"
    and "iteration_order order (candidates sv text)"
    and "embedding_cache s text \<noteq> None \<or> ollama_embeddings sv (requests s) text \<noteq> None"
  shows "fst (extract_keywords sv order text n s) = Inr []"
proof -
  have "order (candidates sv text) = []"
    using assms(1,2) by (simp add: iteration_order_def)
  moreover have "\<exists>te s2. get_embedding sv text s = (Inr te, s2)"
    using assms(3)
    by (cases "embedding_cache s text"; cases "ollama_embeddings sv (requests s) text")
       (auto simp: get_embedding_def)
  then obtain te s2 where "get_embedding sv text s = (Inr te, s2)"
    by blast
  ultimately show ?thesis
    by (simp add: extract_keywords_def sorted_desc_def py_slice_to_def)
qed

theorem no_candidates_empty_result_witness:
  "fst (extract_keywords demo demo_order le 3 cold) = Inr []"
proof -
  have 1: "candidates demo le = {}"
    by (rule demo_candidates_le)
  have 2: "iteration_order demo_order (candidates demo le)"
    by (simp add: iteration_order_def demo_candidates_le demo_order_def)
  have 3: "embedding_cache (cold :: nat extractor) le \<noteq> None
      \<or> ollama_embeddings demo (requests (cold :: nat extractor)) le \<noteq> None"
    by (simp add: demo_def cold_def)
  show ?thesis
    using no_candidates_empty_result [OF 1 2 3] .
qed

text \<open>With the embedding service down, the same document makes the call fail: the
  request for the document's embedding is sent although there is no candidate to
  score.\<close>

theorem no_candidates_service_down:
  "candidates demo_offline le = {}
   \<and> fst (extract_keywords demo_offline demo_order le 3 cold) = Inl EmbeddingServiceError"
  by (simp add: demo_offline_candidates demo_candidates_le demo_extract_offline)

subsection \<open>Clusters\<close>

lemma fold_add_similar:
  "fold (add_similar M threshold keywords i) js (C, U)
     = (C \<union> (!) keywords ` {j \<in> set js. i \<noteq> j \<and> threshold \<le> M i j},
        U \<union> (!) keywords ` {j \<in> set js. i \<noteq> j \<and> threshold \<le> M i j})"
proof (induction js arbitrary: C U)
  case Nil
  then show ?case by simp
next
  case (Cons j js)
  let ?f = "add_similar M threshold keywords i"
  let ?S = "\<lambda>js. (!) keywords ` {j \<in> set js. i \<noteq> j \<and> threshold \<le> M i j}"
  show ?case
  proof (cases "i \<noteq> j \<and> threshold \<le> M i j")
    case True
    then have "fold ?f (j # js) (C, U)
        = fold ?f js (insert (keywords ! j) C, insert (keywords ! j) U)"
      by (simp add: add_similar_def)
    also have "\<dots> = (insert (keywords ! j) C \<union> ?S js, insert (keywords ! j) U \<union> ?S js)"
      by (rule Cons.IH)
    also have "\<dots> = (C \<union> ?S (j # js), U \<union> ?S (j # js))"
      using True by auto
    finally show ?thesis .
  next
    case False
    then have "fold ?f (j # js) (C, U) = fold ?f js (C, U)"
      by (auto simp: add_similar_def)
    also have "\<dots> = (C \<union> ?S js, U \<union> ?S js)"
      by (rule Cons.IH)
    also have "\<dots> = (C \<union> ?S (j # js), U \<union> ?S (j # js))"
      using False by auto
    finally show ?thesis .
  qed
qed

lemma cluster_of_eq:
  "cluster_of M threshold keywords i
     = insert (keywords ! i)
         ((!) keywords ` {j. j < length keywords \<and> i \<noteq> j \<and> threshold \<le> M i j})"
  by (auto simp: cluster_of_def grow_cluster_def fold_add_similar)

lemma grow_cluster_split:
  "grow_cluster M threshold keywords i used
     = (cluster_of M threshold keywords i, used \<union> cluster_of M threshold keywords i)"
  by (auto simp: cluster_of_def grow_cluster_def fold_add_similar)

lemma seed_in_cluster: "keywords ! i \<in> cluster_of M threshold keywords i"
  by (simp add: cluster_of_eq)

lemma cluster_loop_seeds:
  "cluster_loop M threshold keywords is acc used
     = acc @ map (cluster_of M threshold keywords) (seed_indices M threshold keywords is used)"
  by (induction "is" arbitrary: acc used) (simp_all add: grow_cluster_split)

lemma seed_indices_subset: "set (seed_indices M threshold keywords is used) \<subseteq> set is"
  by (induction "is" arbitrary: used) auto




subsection \<open>Representatives\<close>

lemma fold_counter_add_keys:
  "fst ` set (fold counter_add xs d) = fst ` set d \<union> set xs"
  by (induction xs arbitrary: d) (auto simp: counter_add_def AList.dom_update)

lemma Counter_keys: "fst ` set (Counter xs) = set xs"
  by (simp add: Counter_def fold_counter_add_keys)



lemma py_max_nonempty: "xs \<noteq> [] \<Longrightarrow> \<exists>x. py_max f xs = Inr x"
  by (cases xs) auto


lemma representative_Inr:
  assumes "k \<in> cluster" and "k \<in> set keywords"
  shows "\<exists>r. representative keywords cluster = Inr r"
proof -
  have "k \<in> fst ` set (Counter (filter (\<lambda>k. k \<in> cluster) keywords))"
    using assms by (simp add: Counter_keys)
  then have "Counter (filter (\<lambda>k. k \<in> cluster) keywords) \<noteq> []"
    by auto
  from py_max_nonempty [OF this, of snd] show ?thesis
    by (auto simp: representative_def)
qed

lemma assign_loop_result:
  assumes "\<forall>C \<in> set Cs. \<exists>r. representative keywords C = Inr r"
  shows "\<exists>reps. fst (assign_loop keywords Cs acc cache) = Inr (acc @ reps)
      \<and> list_all2 (\<lambda>C r. representative keywords C = Inr r) Cs reps
      \<and> length (cache_trace keywords Cs cache) = length Cs
      \<and> snd (assign_loop keywords Cs acc cache) = last (cache # cache_trace keywords Cs cache)"
  using assms
proof (induction Cs arbitrary: acc cache)
  case Nil
  then show ?case by simp
next
  case (Cons C Cs)
  then obtain r where r: "representative keywords C = Inr r"
    by auto
  from Cons.prems have "\<forall>C \<in> set Cs. \<exists>r. representative keywords C = Inr r"
    by simp
  from Cons.IH [OF this, of "acc @ [r]" "cache_cluster C r cache"]
  obtain reps where
    1: "fst (assign_loop keywords Cs (acc @ [r]) (cache_cluster C r cache))
          = Inr ((acc @ [r]) @ reps)" and
    2: "list_all2 (\<lambda>C r. representative keywords C = Inr r) Cs reps" and
    3: "length (cache_trace keywords Cs (cache_cluster C r cache)) = length Cs" and
    4: "snd (assign_loop keywords Cs (acc @ [r]) (cache_cluster C r cache))
          = last (cache_cluster C r cache # cache_trace keywords Cs (cache_cluster C r cache))"
    by blast
  show ?case
    by (rule exI [of _ "r # reps"]) (simp add: r 1 2 3 4)
qed

lemma align_keywords_slow:
  assumes "\<not> list_all (\<lambda>k. keyword_alignment_cache s k \<noteq> None) keywords"
    and "embed_all sv keywords [] s = (Inr E, s0)"
  shows "align_keywords sv keywords threshold s
     = (fst (assign_loop keywords (form_clusters sv E keywords threshold) []
               (keyword_alignment_cache s0)),
        s0\<lparr>keyword_alignment_cache :=
              snd (assign_loop keywords (form_clusters sv E keywords threshold) []
                     (keyword_alignment_cache s0))\<rparr>)"
proof -
  have "keywords \<noteq> []"
    using assms(1) by auto
  then show ?thesis
    using assms by (simp add: align_keywords_def split: prod.splits)
qed

lemma form_clusters_seeds:
  "form_clusters sv E keywords threshold
     = map (cluster_of (similarity_matrix sv E keywords) threshold keywords)
         (seed_indices (similarity_matrix sv E keywords) threshold keywords
            [0..<length keywords] {})"
  by (simp add: form_clusters_def cluster_loop_seeds)

lemma form_clusters_representative:
  assumes "C \<in> set (form_clusters sv E keywords threshold)"
  shows "\<exists>r. representative keywords C = Inr r"
proof -
  from assms obtain i where
    i: "i \<in> set (seed_indices (similarity_matrix sv E keywords) threshold keywords
                   [0..<length keywords] {})" and
    C: "C = cluster_of (similarity_matrix sv E keywords) threshold keywords i"
    by (auto simp: form_clusters_seeds)
  from i seed_indices_subset have "i < length keywords"
    by fastforce
  then have "keywords ! i \<in> set keywords"
    by simp
  with seed_in_cluster C representative_Inr show ?thesis
    by blast
qed

text \<open>An embedding service that answers every request makes \<^verbatim>\<open>align_keywords\<close>
  return: \<^verbatim>\<open>max\<close> is never applied to an empty \<^verbatim>\<open>Counter\<close>.\<close>

lemma align_keywords_returns:
  assumes "\<forall>history t. ollama_embeddings sv history t \<noteq> None"
  shows "\<exists>reps s'. align_keywords sv keywords threshold s = (Inr reps, s')"
proof (cases "list_all (\<lambda>k. keyword_alignment_cache s k \<noteq> None) keywords")
  case True
  then show ?thesis
    by (simp add: align_keywords_def)
next
  case False
  from embed_all_returns [OF assms, of "keywords" "[]" s]
  obtain E s0 where e: "embed_all sv keywords [] s = (Inr E, s0)"
    by blast
  have "\<forall>C \<in> set (form_clusters sv E keywords threshold).
          \<exists>r. representative keywords C = Inr r"
    using form_clusters_representative by blast
  from assign_loop_result [OF this, of "[]" "keyword_alignment_cache s0"]
  obtain reps where
    "fst (assign_loop keywords (form_clusters sv E keywords threshold) []
            (keyword_alignment_cache s0)) = Inr reps"
    by auto
  then show ?thesis
    by (simp add: align_keywords_slow [OF False e])
qed




subsection \<open>The alignment cache during one call\<close>









subsection \<open>Calling \<^verbatim>\<open>align_keywords\<close> twice\<close>















end
